theory Spec2Isabelle
  imports Complex_Main "HOL-Library.Word"
begin

section \<open>JavaScript values used by app.js\<close>

text \<open>
  A JavaScript string is a sequence of 16-bit code units. ASCII literals of the source are
  written \<open>js ''...''\<close>; the Chinese literals of the demo data are written as their code
  units.
\<close>

type_synonym jsstring = "16 word list"

definition js :: "string \<Rightarrow> jsstring" where
  "js s = map (\<lambda>c. of_nat (of_char c)) s"

text \<open>
  The values a depth or situation field can hold: \<open>null\<close> (the initial and the reset value of
  \<open>formState\<close>), \<open>undefined\<close> (a \<open>dataset\<close> entry whose attribute is absent) or a string.
  Datatype equality is \<open>===\<close> on these values.
\<close>

datatype jsval = JNull | JUndefined | JString jsstring

fun truthy :: "jsval \<Rightarrow> bool" where
  "truthy JNull = False"
| "truthy JUndefined = False"
| "truthy (JString s) = (s \<noteq> [])"

text \<open>
  The operator \<open><\<close> on two strings: the first differing code unit decides, a proper prefix
  is smaller. \<open>a > b\<close> is \<open>js_lt b a\<close>.
\<close>

fun js_lt :: "jsstring \<Rightarrow> jsstring \<Rightarrow> bool" where
  "js_lt [] [] = False"
| "js_lt [] (y # ys) = True"
| "js_lt (x # xs) [] = False"
| "js_lt (x # xs) (y # ys) = (if x = y then js_lt xs ys else x < y)"

text \<open>\<open>s.split(sep)[0]\<close> for a one-unit separator, and \<open>s.slice(0, n)\<close>.\<close>

definition split_first :: "16 word \<Rightarrow> jsstring \<Rightarrow> jsstring" where
  "split_first sep s = takeWhile (\<lambda>c. c \<noteq> sep) s"

definition slice0 :: "nat \<Rightarrow> jsstring \<Rightarrow> jsstring" where
  "slice0 n s = take n s"

datatype js_error = TypeError

text \<open>
  One reading of the clock: \<open>Date.now()\<close> in milliseconds, \<open>new Date().toISOString()\<close>
  (the instant in UTC, \<open>YYYY-MM-DDTHH:mm:ss.sssZ\<close>) and \<open>new Date().toTimeString()\<close>
  (the instant in the browser's time zone, \<open>HH:mm:ss GMT+hhmm (zone)\<close>). A handler that
  reads the clock several times is given one reading for all of them.
\<close>

record clock =
  now_ms :: int
  iso_string :: jsstring
  time_string :: jsstring


section \<open>Data model\<close>

record latlng =
  lat :: real
  lng :: real

text \<open>
  A flood report, with the fields of the object literal in \<open>handleFormSubmit\<close> and
  \<open>addDemoData\<close>. The field \<open>id\<close> of the source is \<open>report_id\<close>. Coordinates are only
  copied and compared, never computed with.
\<close>

record report =
  report_id :: int
  location :: latlng
  date :: jsstring
  time :: jsstring
  depth :: jsval
  situation :: jsval
  description :: jsstring
  photo :: "jsstring option"
  timestamp :: jsstring

text \<open>
  A marker of the floods layer: the position array \<open>[lat, lng]\<close>, the depth its icon is
  made from and the \<open>reportData\<close> attached to it. Popup and icon markup are presentation
  and left out.
\<close>

record marker =
  marker_latlng :: "real \<times> real"
  marker_icon :: jsval
  reportData :: report

text \<open>The draft \<open>formState\<close>; \<open>None\<close> is \<open>null\<close>.\<close>

record form_state =
  form_location :: "latlng option"
  form_depth :: jsval
  form_situation :: jsval

text \<open>
  An element of a chip group: its \<open>dataset\<close> value and whether it carries the class the
  group's handler toggles (\<open>selected\<close> for depth options and situation chips,
  \<open>active\<close> for filter chips).
\<close>

record chip =
  chip_value :: jsval
  has_class :: bool

text \<open>
  One instance of the row template that \<open>updateReportList\<close> writes into the \<open>innerHTML\<close>
  of the report list, with the values it interpolates; \<open>report.description || coordinates\<close>
  is its location text. The values go into the markup unescaped: what is recorded here is
  what the handler writes, one instance per stored report, not the elements the browser
  parses out of it, which are these rows only as long as no description contains markup.
  The click listeners put on the parsed rows are left out.
\<close>

datatype row_text = Desc jsstring | Coords latlng

record report_item =
  data_id :: int
  item_date :: jsstring
  item_time :: jsstring
  item_depth :: jsval
  item_location :: row_text

text \<open>The static layers and what a fetched file parses to.\<close>

datatype layer_name = Roads | Water | Parks | Amenities | Metro | Boundary

record feature =
  prop_name :: jsval
  prop_category :: jsval
  prop_address :: jsval

text \<open>
  Parsed JSON as \<open>L.geoJSON\<close> sees it: data it throws on, a feature collection, or one
  object with no \<open>features\<close> member.
\<close>

datatype geodata = GeoInvalid | FeatureCollection "feature list" | SingleObject feature

datatype log_entry =
    LogLoading jsstring jsstring
  | LogLoaded jsstring "nat option"
  | LogFailed jsstring jsstring

text \<open>
  The module's global variables and the parts of the page the handlers read and write.
  \<open>map_markers\<close> are the markers added to the map itself (the temporary selection
  marker), \<open>floods\<close> is \<open>layers.floods\<close>, \<open>geo_layers\<close> the six other layer groups.
  The instructions panel, the toast, the mode switch, the visibility toggles of the layers
  and all markup are presentation and left out.
\<close>

record app_state =
  geo_layers :: "layer_name \<Rightarrow> geodata list"
  floods :: "marker list"
  map_markers :: "latlng list"
  currentMarker :: "latlng option"
  selectedLocation :: "latlng option"
  floodReports :: "report list"
  formState :: form_state
  uploadedPhoto :: "jsstring option"
  eventDate :: jsstring
  eventTime :: jsstring
  locationDesc :: jsstring
  submitDisabled :: bool
  depth_options :: "chip list"
  situation_chips :: "chip list"
  filter_chips :: "chip list"
  filterDateFrom :: jsstring
  filterDateTo :: jsstring
  photoPreview :: "jsstring option"
  photo_has_image :: bool
  photoInput :: jsstring
  locationDisplay :: "latlng option"
  totalReports :: nat
  todayReports :: nat
  reportItems :: "report_item list"
  console :: "log_entry list"


section \<open>Form helpers\<close>

definition validateForm :: "app_state \<Rightarrow> app_state" where
  "validateForm s =
     (if form_location (formState s) \<noteq> None \<and> truthy (form_depth (formState s))
         \<and> truthy (form_situation (formState s)) \<and> eventDate s \<noteq> [] \<and> eventTime s \<noteq> []
      then s\<lparr>submitDisabled := False\<rparr>
      else s\<lparr>submitDisabled := True\<rparr>)"

definition setDefaultDateTime :: "clock \<Rightarrow> app_state \<Rightarrow> app_state" where
  "setDefaultDateTime now s =
     s\<lparr>eventDate := split_first 0x54 (iso_string now),
       eventTime := slice0 5 (time_string now)\<rparr>"

definition clear_class :: "chip list \<Rightarrow> chip list" where
  "clear_class cs = map (\<lambda>c. c\<lparr>has_class := False\<rparr>) cs"

definition resetForm :: "clock \<Rightarrow> app_state \<Rightarrow> app_state" where
  "resetForm now s =
     (let s1 = (case currentMarker s of
                  Some m \<Rightarrow> s\<lparr>map_markers := remove1 m (map_markers s), currentMarker := None\<rparr>
                | None \<Rightarrow> s);
          s2 = s1\<lparr>selectedLocation := None,
                  formState := \<lparr>form_location = None, form_depth = JNull, form_situation = JNull\<rparr>\<rparr>;
          s3 = s2\<lparr>locationDisplay := None\<rparr>;
          s4 = s3\<lparr>depth_options := clear_class (depth_options s3),
                  situation_chips := clear_class (situation_chips s3),
                  locationDesc := []\<rparr>;
          s5 = s4\<lparr>photoPreview := None, photo_has_image := False, uploadedPhoto := None,
                  photoInput := []\<rparr>;
          s6 = s5\<lparr>submitDisabled := True\<rparr>
      in setDefaultDateTime now s6)"


section \<open>Event handlers\<close>

definition updateLocationDisplay :: "latlng \<Rightarrow> app_state \<Rightarrow> app_state" where
  "updateLocationDisplay ll s = s\<lparr>locationDisplay := Some ll\<rparr>"

definition handleMapClick :: "latlng \<Rightarrow> app_state \<Rightarrow> app_state" where
  "handleMapClick ll s =
     (let s1 = (case currentMarker s of
                  Some m \<Rightarrow> s\<lparr>map_markers := remove1 m (map_markers s)\<rparr>
                | None \<Rightarrow> s);
          s2 = s1\<lparr>currentMarker := Some ll, map_markers := map_markers s1 @ [ll]\<rparr>;
          s3 = s2\<lparr>selectedLocation := Some ll,
                  formState := (formState s2)\<lparr>form_location := Some ll\<rparr>\<rparr>;
          s4 = updateLocationDisplay ll s3
      in validateForm s4)"

text \<open>
  \<open>handleDepthSelect\<close> and \<open>handleSituationSelect\<close> run with \<open>this\<close> bound to the clicked
  element, here the element at index \<open>i\<close> of its group; a listener exists only on the
  elements of the group, so \<open>i\<close> is in range whenever a handler runs.
\<close>

definition handleDepthSelect :: "nat \<Rightarrow> app_state \<Rightarrow> app_state" where
  "handleDepthSelect i s =
     (let opts = clear_class (depth_options s);
          this = (opts ! i)\<lparr>has_class := True\<rparr>;
          s1 = s\<lparr>depth_options := opts[i := this],
                 formState := (formState s)\<lparr>form_depth := chip_value this\<rparr>\<rparr>
      in validateForm s1)"

definition handleSituationSelect :: "nat \<Rightarrow> app_state \<Rightarrow> app_state" where
  "handleSituationSelect i s =
     (let chips = clear_class (situation_chips s);
          this = (chips ! i)\<lparr>has_class := True\<rparr>;
          s1 = s\<lparr>situation_chips := chips[i := this],
                 formState := (formState s)\<lparr>form_situation := chip_value this\<rparr>\<rparr>
      in validateForm s1)"

text \<open>The \<open>onload\<close> callback of the file reader started by \<open>handlePhotoUpload\<close>.\<close>

definition handlePhotoUpload :: "jsstring \<Rightarrow> app_state \<Rightarrow> app_state" where
  "handlePhotoUpload result s =
     s\<lparr>uploadedPhoto := Some result, photoPreview := Some result, photo_has_image := True\<rparr>"

text \<open>The marker \<open>addFloodMarker\<close> builds, and its \<open>addTo(layers.floods)\<close>.\<close>

definition flood_marker :: "report \<Rightarrow> marker" where
  "flood_marker r =
     \<lparr>marker_latlng = (lat (location r), lng (location r)),
      marker_icon = depth r,
      reportData = r\<rparr>"

definition addFloodMarker :: "report \<Rightarrow> app_state \<Rightarrow> app_state" where
  "addFloodMarker r s = s\<lparr>floods := floods s @ [flood_marker r]\<rparr>"

definition updateStats :: "clock \<Rightarrow> app_state \<Rightarrow> app_state" where
  "updateStats now s =
     (let today = split_first 0x54 (iso_string now)
      in s\<lparr>totalReports := length (floodReports s),
            todayReports := length (filter (\<lambda>r. date r = today) (floodReports s))\<rparr>)"

definition render_item :: "report \<Rightarrow> report_item" where
  "render_item r =
     \<lparr>data_id = report_id r, item_date = date r, item_time = time r, item_depth = depth r,
      item_location = (if description r \<noteq> [] then Desc (description r) else Coords (location r))\<rparr>"

definition updateReportList :: "app_state \<Rightarrow> app_state" where
  "updateReportList s = s\<lparr>reportItems := map render_item (rev (floodReports s))\<rparr>"

text \<open>
  \<open>handleFormSubmit\<close> reads \<open>formState.location.lat\<close> first: with \<open>location\<close> still
  \<open>null\<close> that is a TypeError, thrown before anything is written.
\<close>

definition handleFormSubmit :: "clock \<Rightarrow> app_state \<Rightarrow> js_error + app_state" where
  "handleFormSubmit now s =
     (case form_location (formState s) of
        None \<Rightarrow> Inl TypeError
      | Some l \<Rightarrow>
          (let r = \<lparr>report_id = now_ms now,
                    location = \<lparr>lat = lat l, lng = lng l\<rparr>,
                    date = eventDate s,
                    time = eventTime s,
                    depth = form_depth (formState s),
                    situation = form_situation (formState s),
                    description = locationDesc s,
                    photo = uploadedPhoto s,
                    timestamp = iso_string now\<rparr>;
               s1 = s\<lparr>floodReports := floodReports s @ [r]\<rparr>;
               s2 = addFloodMarker r s1;
               s3 = updateStats now s2;
               s4 = resetForm now s3
           in Inr (updateReportList s4)))"


section \<open>Filter\<close>

text \<open>The body of the \<open>forEach\<close> callback of \<open>filterReports\<close> up to its last test.\<close>

definition show_report :: "jsval \<Rightarrow> jsstring \<Rightarrow> jsstring \<Rightarrow> report \<Rightarrow> bool" where
  "show_report depthFilter dateFrom dateTo r =
     (let show0 = True;
          show1 = (if depthFilter \<noteq> JString (js ''all'') \<and> depth r \<noteq> depthFilter
                   then False else show0);
          show2 = (if dateFrom \<noteq> [] \<and> js_lt (date r) dateFrom then False else show1);
          show3 = (if dateTo \<noteq> [] \<and> js_lt dateTo (date r) then False else show2)
      in show3)"

text \<open>
  \<open>document.querySelector('.filter-chip.active')\<close> is the first active chip, or \<open>null\<close>;
  reading \<open>dataset\<close> of \<open>null\<close> is a TypeError, thrown before the layer is cleared.
\<close>

definition filterReports :: "app_state \<Rightarrow> js_error + app_state" where
  "filterReports s =
     (case find has_class (filter_chips s) of
        None \<Rightarrow> Inl TypeError
      | Some c \<Rightarrow>
          (let depthFilter = chip_value c;
               dateFrom = filterDateFrom s;
               dateTo = filterDateTo s;
               s1 = s\<lparr>floods := []\<rparr>
           in Inr (foldl (\<lambda>st r. if show_report depthFilter dateFrom dateTo r
                                  then addFloodMarker r st else st)
                     s1 (floodReports s1))))"

definition handleFilterChipClick :: "nat \<Rightarrow> app_state \<Rightarrow> js_error + app_state" where
  "handleFilterChipClick i s =
     (let chips = clear_class (filter_chips s);
          this = (chips ! i)\<lparr>has_class := True\<rparr>
      in filterReports (s\<lparr>filter_chips := chips[i := this]\<rparr>))"


section \<open>Demo data\<close>

definition demoReports :: "clock \<Rightarrow> report list" where
  "demoReports now =
     [\<lparr>report_id = 1, location = \<lparr>lat = 30.2574, lng = 120.1583\<rparr>,
       date = js ''2025-06-15'', time = js ''08:30'',
       depth = JString (js ''moderate''), situation = JString (js ''commute''),
       description = [0x4E2D, 0x6CB3, 0x5317, 0x8DEF, 0x4E0E, 0x5E86, 0x6625, 0x8DEF,
                      0x4EA4, 0x53C9, 0x53E3],
       photo = None, timestamp = iso_string now\<rparr>,
      \<lparr>report_id = 2, location = \<lparr>lat = 30.2456, lng = 120.1789\<rparr>,
       date = js ''2025-06-15'', time = js ''09:15'',
       depth = JString (js ''deep''), situation = JString (js ''work''),
       description = [0x51E4, 0x8D77, 0x8DEF, 0x5730, 0x94C1, 0x7AD9, 0x9644, 0x8FD1],
       photo = None, timestamp = iso_string now\<rparr>,
      \<lparr>report_id = 3, location = \<lparr>lat = 30.2312, lng = 120.1456\<rparr>,
       date = js ''2025-06-14'', time = js ''16:45'',
       depth = JString (js ''shallow''), situation = JString (js ''home''),
       description = [0x897F, 0x6E56, 0x6587, 0x5316, 0x5E7F, 0x573A, 0x5468, 0x8FB9],
       photo = None, timestamp = iso_string now\<rparr>,
      \<lparr>report_id = 4, location = \<lparr>lat = 30.2689, lng = 120.1234\<rparr>,
       date = js ''2025-06-14'', time = js ''07:20'',
       depth = JString (js ''severe''), situation = JString (js ''commute''),
       description = [0x6587, 0x4E09, 0x8DEF, 0x4E0E, 0x5B66, 0x9662, 0x8DEF, 0x8DEF, 0x53E3],
       photo = None, timestamp = iso_string now\<rparr>,
      \<lparr>report_id = 5, location = \<lparr>lat = 30.1923, lng = 120.2134\<rparr>,
       date = js ''2025-06-13'', time = js ''14:30'',
       depth = JString (js ''moderate''), situation = JString (js ''other''),
       description = [0x6EE8, 0x6C5F, 0x533A, 0x6C5F, 0x5357, 0x5927, 0x9053],
       photo = None, timestamp = iso_string now\<rparr>]"

definition addDemoData :: "clock \<Rightarrow> app_state \<Rightarrow> app_state" where
  "addDemoData now s =
     (let s1 = foldl (\<lambda>st r. addFloodMarker r (st\<lparr>floodReports := floodReports st @ [r]\<rparr>))
                 s (demoReports now);
          s2 = updateStats now s1
      in updateReportList s2)"


section \<open>Loading the static layers\<close>

text \<open>
  What the network answers for a URL: the promise of \<open>fetch\<close> stays pending, rejects, or
  fulfils with a response (\<open>ok\<close>, \<open>status\<close>), whose \<open>json()\<close> promise in turn stays
  pending, rejects (the body does not parse) or fulfils with the parsed data.
\<close>

datatype body_outcome = BodyPending | BodyRejected | BodyParsed geodata

datatype fetch_outcome = FetchPending | FetchRejected | Response bool nat body_outcome

text \<open>
  An \<open>async\<close> call either settles, or stays suspended at an \<open>await\<close> for good; both leave
  a state behind.
\<close>

datatype completion = Settled app_state | Suspended app_state

definition console_log :: "log_entry \<Rightarrow> app_state \<Rightarrow> app_state" where
  "console_log e s = s\<lparr>console := console s @ [e]\<rparr>"

definition loadLayer ::
  "(jsstring \<Rightarrow> fetch_outcome) \<Rightarrow> jsstring \<Rightarrow> jsstring \<Rightarrow> layer_name \<Rightarrow> app_state \<Rightarrow> completion"
where
  "loadLayer net url name targetLayer s =
     (let s1 = console_log (LogLoading name url) s;
          caught = Settled (console_log (LogFailed name url) s1)
      in case net url of
           FetchPending \<Rightarrow> Suspended s1
         | FetchRejected \<Rightarrow> caught
         | Response ok status body \<Rightarrow>
             if \<not> ok then caught
             else (case body of
                     BodyPending \<Rightarrow> Suspended s1
                   | BodyRejected \<Rightarrow> caught
                   | BodyParsed GeoInvalid \<Rightarrow> caught
                   | BodyParsed data \<Rightarrow>
                       (let s2 = s1\<lparr>geo_layers := (geo_layers s1)
                                      (targetLayer := geo_layers s1 targetLayer @ [data])\<rparr>;
                            featureCount = (case data of
                                              FeatureCollection fs \<Rightarrow> Some (length fs)
                                            | _ \<Rightarrow> None)
                        in Settled (console_log (LogLoaded name featureCount) s2))))"

text \<open>The six calls of \<open>loadGeoJSONData\<close>, in the order of the source: URL, name, target.\<close>

definition layer_specs :: "(jsstring \<times> jsstring \<times> layer_name) list" where
  "layer_specs =
     [(js ''HZ_Center.geojson'', js ''boundary'', Boundary),
      (js ''roads_simplified.geojson'', js ''roads'', Roads),
      (js ''water.geojson'', js ''water'', Water),
      (js ''park.geojson'', js ''parks'', Parks),
      (js ''amenity.geojson'', js ''amenities'', Amenities),
      (js ''metrostation.geojson'', js ''metro'', Metro)]"

text \<open>Each call is awaited before the next one starts.\<close>

fun load_each ::
  "(jsstring \<Rightarrow> fetch_outcome) \<Rightarrow> (jsstring \<times> jsstring \<times> layer_name) list \<Rightarrow> app_state \<Rightarrow> completion"
where
  "load_each net [] s = Settled s"
| "load_each net ((url, name, targetLayer) # rest) s =
     (case loadLayer net url name targetLayer s of
        Settled s' \<Rightarrow> load_each net rest s'
      | Suspended s' \<Rightarrow> Suspended s')"

definition loadGeoJSONData :: "(jsstring \<Rightarrow> fetch_outcome) \<Rightarrow> app_state \<Rightarrow> completion" where
  "loadGeoJSONData net s = load_each net layer_specs s"


section \<open>A session\<close>

text \<open>
  The page as the script finds it. \<open>index.html\<close> is not among the sources, so the chip
  groups and the initial state of the submit control are parameters.
\<close>

record page =
  page_depth_options :: "chip list"
  page_situation_chips :: "chip list"
  page_filter_chips :: "chip list"
  page_submit_disabled :: bool

text \<open>The global variables as declared, over a page with empty inputs.\<close>

definition page_load :: "page \<Rightarrow> app_state" where
  "page_load pg =
     \<lparr>geo_layers = (\<lambda>_. []), floods = [], map_markers = [], currentMarker = None,
      selectedLocation = None, floodReports = [],
      formState = \<lparr>form_location = None, form_depth = JNull, form_situation = JNull\<rparr>,
      uploadedPhoto = None, eventDate = [], eventTime = [], locationDesc = [],
      submitDisabled = page_submit_disabled pg,
      depth_options = page_depth_options pg, situation_chips = page_situation_chips pg,
      filter_chips = page_filter_chips pg, filterDateFrom = [], filterDateTo = [],
      photoPreview = None, photo_has_image = False, photoInput = [], locationDisplay = None,
      totalReports = 0, todayReports = 0, reportItems = [], console = []\<rparr>"

text \<open>
  The \<open>DOMContentLoaded\<close> listener, without \<open>loadGeoJSONData\<close>: that call only starts
  there, and what it does later touches the six static layers and the console only.
\<close>

definition DOMContentLoaded :: "page \<Rightarrow> clock \<Rightarrow> app_state" where
  "DOMContentLoaded pg now = addDemoData now (setDefaultDateTime now (page_load pg))"

text \<open>
  The events the listeners of \<open>initializeEventListeners\<close> react to. An exception in a
  listener ends that listener only; both listeners that can throw do so before their first
  write, so the state is then the one before the event. A click reaches a chip only if the
  chip exists.
\<close>

datatype event =
    MapClick latlng
  | DepthClick nat
  | SituationClick nat
  | DateChange jsstring
  | TimeChange jsstring
  | DescriptionInput jsstring
  | PhotoLoaded jsstring
  | Submit clock
  | FilterChipClick nat
  | FilterFromChange jsstring
  | FilterToChange jsstring

definition or_unchanged :: "app_state \<Rightarrow> js_error + app_state \<Rightarrow> app_state" where
  "or_unchanged s r = (case r of Inl e \<Rightarrow> s | Inr s' \<Rightarrow> s')"

fun dispatch :: "event \<Rightarrow> app_state \<Rightarrow> app_state" where
  "dispatch (MapClick ll) s = handleMapClick ll s"
| "dispatch (DepthClick i) s =
     (if i < length (depth_options s) then handleDepthSelect i s else s)"
| "dispatch (SituationClick i) s =
     (if i < length (situation_chips s) then handleSituationSelect i s else s)"
| "dispatch (DateChange v) s = validateForm (s\<lparr>eventDate := v\<rparr>)"
| "dispatch (TimeChange v) s = validateForm (s\<lparr>eventTime := v\<rparr>)"
| "dispatch (DescriptionInput v) s = s\<lparr>locationDesc := v\<rparr>"
| "dispatch (PhotoLoaded result) s = handlePhotoUpload result s"
| "dispatch (Submit now) s = or_unchanged s (handleFormSubmit now s)"
| "dispatch (FilterChipClick i) s =
     (if i < length (filter_chips s) then or_unchanged s (handleFilterChipClick i s) else s)"
| "dispatch (FilterFromChange v) s =
     or_unchanged (s\<lparr>filterDateFrom := v\<rparr>) (filterReports (s\<lparr>filterDateFrom := v\<rparr>))"
| "dispatch (FilterToChange v) s =
     or_unchanged (s\<lparr>filterDateTo := v\<rparr>) (filterReports (s\<lparr>filterDateTo := v\<rparr>))"

definition run :: "event list \<Rightarrow> app_state \<Rightarrow> app_state" where
  "run evs s = foldl (\<lambda>st e. dispatch e st) s evs"

text \<open>The clock readings of the submissions of a session, in order.\<close>

fun submit_clocks :: "event list \<Rightarrow> int list" where
  "submit_clocks [] = []"
| "submit_clocks (Submit now # evs) = now_ms now # submit_clocks evs"
| "submit_clocks (e # evs) = submit_clocks evs"

text \<open>
  Modelled from the spec: \<open>index.html\<close> is missing. The depth selector has the four options
  shallow, moderate, deep and severe, the situation selector the four options home,
  commute, work and other, the depth filter the five chips all, shallow, moderate, deep and
  severe; no option is selected, the filter starts at all, and with no required field set
  the submit control starts disabled.
\<close>

definition spec_page :: page where
  "spec_page =
     \<lparr>page_depth_options =
        map (\<lambda>v. \<lparr>chip_value = JString (js v), has_class = False\<rparr>)
          [''shallow'', ''moderate'', ''deep'', ''severe''],
      page_situation_chips =
        map (\<lambda>v. \<lparr>chip_value = JString (js v), has_class = False\<rparr>)
          [''home'', ''commute'', ''work'', ''other''],
      page_filter_chips =
        \<lparr>chip_value = JString (js ''all''), has_class = True\<rparr> #
        map (\<lambda>v. \<lparr>chip_value = JString (js v), has_class = False\<rparr>)
          [''shallow'', ''moderate'', ''deep'', ''severe''],
      page_submit_disabled = True\<rparr>"

text \<open>A clock reading and a session in which the form has been filled in, for examples.\<close>

definition clock0 :: clock where
  "clock0 =
     \<lparr>now_ms = 1750000000000,
      iso_string = js ''2025-06-15T15:06:40.000Z'',
      time_string = js ''23:06:40 GMT+0800 (China Standard Time)''\<rparr>"

definition filled_form :: app_state where
  "filled_form =
     run [MapClick \<lparr>lat = 30.25, lng = 120.15\<rparr>, DepthClick 2, SituationClick 1]
       (DOMContentLoaded spec_page clock0)"

text \<open>
  The same session in Hangzhou (UTC+8) at 01:30 on 15 June 2025, which is 17:30 on 14 June
  in UTC.
\<close>

definition night_clock :: clock where
  "night_clock =
     \<lparr>now_ms = 1749922200000,
      iso_string = js ''2025-06-14T17:30:00.000Z'',
      time_string = js ''01:30:00 GMT+0800 (China Standard Time)''\<rparr>"

definition night_form :: app_state where
  "night_form =
     run [MapClick \<lparr>lat = 30.25, lng = 120.15\<rparr>, DepthClick 2, SituationClick 1]
       (DOMContentLoaded spec_page night_clock)"

text \<open>
  The required fields of the form are all set: a location has been picked, and depth,
  situation, date and time are non-empty strings.
\<close>

definition all_set :: "app_state \<Rightarrow> bool" where
  "all_set s =
     (form_location (formState s) \<noteq> None \<and> truthy (form_depth (formState s))
      \<and> truthy (form_situation (formState s)) \<and> eventDate s \<noteq> [] \<and> eventTime s \<noteq> [])"

text \<open>
  The filter criteria in the words of the specification: the depth equals the selected one
  unless the selection is \<open>all\<close>, and the date lies between the two bounds, both
  inclusive, a bound that is empty being no bound.
\<close>

definition js_le :: "jsstring \<Rightarrow> jsstring \<Rightarrow> bool" where
  "js_le a b = (a = b \<or> js_lt a b)"

definition criteria_met :: "jsval \<Rightarrow> jsstring \<Rightarrow> jsstring \<Rightarrow> report \<Rightarrow> bool" where
  "criteria_met depthFilter dateFrom dateTo r =
     ((depthFilter = JString (js ''all'') \<or> depth r = depthFilter)
      \<and> (dateFrom = [] \<or> js_le dateFrom (date r))
      \<and> (dateTo = [] \<or> js_le (date r) dateTo))"

text \<open>A session in which the filter is set to severe, 2025-06-14 to 2025-06-15.\<close>

definition filter_session :: app_state where
  "filter_session =
     run [FilterChipClick 4, FilterFromChange (js ''2025-06-14''),
          FilterToChange (js ''2025-06-15'')]
       (DOMContentLoaded spec_page clock0)"


text \<open>
  The outcomes of a layer's fetch: it settles (no promise of the load stays pending), it
  fails (network error, non-success status, a body that does not parse, or data
  \<open>L.geoJSON\<close> throws on), and what a load adds to its layer group.
\<close>

fun settles :: "fetch_outcome \<Rightarrow> bool" where
  "settles FetchPending = False"
| "settles FetchRejected = True"
| "settles (Response ok status body) = (if ok then body \<noteq> BodyPending else True)"

fun load_fails :: "fetch_outcome \<Rightarrow> bool" where
  "load_fails FetchRejected = True"
| "load_fails (Response False status body) = True"
| "load_fails (Response True status BodyRejected) = True"
| "load_fails (Response True status (BodyParsed GeoInvalid)) = True"
| "load_fails _ = False"

fun rendered :: "fetch_outcome \<Rightarrow> geodata list" where
  "rendered (Response True status (BodyParsed (FeatureCollection fs))) = [FeatureCollection fs]"
| "rendered (Response True status (BodyParsed (SingleObject f))) = [SingleObject f]"
| "rendered _ = []"

text \<open>A network where \<open>water.geojson\<close> answers 404 and the other five files load.\<close>

definition net0 :: "jsstring \<Rightarrow> fetch_outcome" where
  "net0 url =
     (if url = js ''water.geojson'' then Response False 404 BodyPending
      else if url = js ''metrostation.geojson''
      then Response True 200 (BodyParsed (FeatureCollection
             [\<lparr>prop_name = JString (js ''Longxiangqiao''), prop_category = JUndefined,
               prop_address = JUndefined\<rparr>]))
      else Response True 200 (BodyParsed (FeatureCollection [])))"

text \<open>
  Two sessions with two submissions each: in the first both submissions read the same
  millisecond off the clock, in the second the clock has advanced by one.
\<close>

definition same_ms_session :: app_state where
  "same_ms_session =
     run [MapClick \<lparr>lat = 30.25, lng = 120.15\<rparr>, DepthClick 2, SituationClick 1, Submit clock0,
          MapClick \<lparr>lat = 30.26, lng = 120.16\<rparr>, DepthClick 0, SituationClick 0, Submit clock0]
       (DOMContentLoaded spec_page clock0)"

definition later :: "clock \<Rightarrow> clock" where
  "later c = c\<lparr>now_ms := now_ms c + 1\<rparr>"

definition two_ms_session_events :: "event list" where
  "two_ms_session_events =
     [MapClick \<lparr>lat = 30.25, lng = 120.15\<rparr>, DepthClick 2, SituationClick 1, Submit clock0,
      MapClick \<lparr>lat = 30.26, lng = 120.16\<rparr>, DepthClick 0, SituationClick 0,
      Submit (later clock0)]"

text \<open>
  Calendar dates, for comparison with the date tests of the filter. A date string is three
  fields of decimal digits separated by \<open>-\<close> (year, month, day); it is of the zero-padded
  form \<open>YYYY-MM-DD\<close> when the fields have four, two and two digits. Dates are ordered by
  year, then month, then day.
\<close>

definition is_digit :: "16 word \<Rightarrow> bool" where
  "is_digit c = (0x30 \<le> c \<and> c \<le> 0x39)"

definition digit_val :: "16 word \<Rightarrow> nat" where
  "digit_val c = unat c - 48"

definition dec :: "jsstring \<Rightarrow> nat" where
  "dec s = foldl (\<lambda>n c. 10 * n + digit_val c) 0 s"

definition all_digits :: "jsstring \<Rightarrow> bool" where
  "all_digits s = (s \<noteq> [] \<and> list_all is_digit s)"

fun fields :: "jsstring \<Rightarrow> jsstring list" where
  "fields [] = [[]]"
| "fields (c # cs) =
     (if c = 0x2D then [] # fields cs
      else (case fields cs of f # fs \<Rightarrow> (c # f) # fs | [] \<Rightarrow> [[c]]))"

definition parse_ymd :: "jsstring \<Rightarrow> (nat \<times> nat \<times> nat) option" where
  "parse_ymd s =
     (case fields s of
        [y, m, d] \<Rightarrow>
          if all_digits y \<and> all_digits m \<and> all_digits d
          then Some (dec y, dec m, dec d) else None
      | _ \<Rightarrow> None)"

definition iso_date :: "jsstring \<Rightarrow> (nat \<times> nat \<times> nat) option" where
  "iso_date s =
     (case fields s of
        [y, m, d] \<Rightarrow>
          if length y = 4 \<and> length m = 2 \<and> length d = 2 then parse_ymd s else None
      | _ \<Rightarrow> None)"

fun chron_lt :: "nat \<times> nat \<times> nat \<Rightarrow> nat \<times> nat \<times> nat \<Rightarrow> bool" where
  "chron_lt (y, m, d) (y', m', d') = (y < y' \<or> (y = y' \<and> (m < m' \<or> (m = m' \<and> d < d'))))"

definition chron_le :: "nat \<times> nat \<times> nat \<Rightarrow> nat \<times> nat \<times> nat \<Rightarrow> bool" where
  "chron_le a b = (a = b \<or> chron_lt a b)"

fun join_dash :: "jsstring list \<Rightarrow> jsstring" where
  "join_dash [] = []"
| "join_dash [x] = x"
| "join_dash (x # y # ys) = x @ 0x2D # join_dash (y # ys)"


section \<open>Basic facts\<close>

lemmas handler_defs = validateForm_def setDefaultDateTime_def clear_class_def resetForm_def
  updateLocationDisplay_def handleMapClick_def handleDepthSelect_def handleSituationSelect_def
  handlePhotoUpload_def addFloodMarker_def updateStats_def updateReportList_def

lemmas session_defs = run_def DOMContentLoaded_def addDemoData_def demoReports_def
  spec_page_def page_load_def clock0_def js_def split_first_def slice0_def or_unchanged_def

lemma filled_form_fields:
  "form_location (formState filled_form) = Some \<lparr>lat = 30.25, lng = 120.15\<rparr>"
  "form_depth (formState filled_form) = JString (js ''deep'')"
  "form_situation (formState filled_form) = JString (js ''commute'')"
  "eventDate filled_form = js ''2025-06-15''"
  "eventTime filled_form = js ''23:06''"
  "map report_id (floodReports filled_form) = [1, 2, 3, 4, 5]"
  "length (floods filled_form) = 5"
  "currentMarker filled_form = Some \<lparr>lat = 30.25, lng = 120.15\<rparr>"
  "map_markers filled_form = [\<lparr>lat = 30.25, lng = 120.15\<rparr>]"
  "map has_class (depth_options filled_form) = [False, False, True, False]"
  "map has_class (situation_chips filled_form) = [False, True, False, False]"
  "length (depth_options filled_form) = 4"
  "length (situation_chips filled_form) = 4"
  "submitDisabled filled_form = False"
  by (simp_all add: filled_form_def session_defs handler_defs Let_def)

lemma validateForm_gate: "(\<not> submitDisabled (validateForm s)) = all_set (validateForm s)"
  by (simp add: validateForm_def all_set_def)

lemma resetForm_gate: "(\<not> submitDisabled (resetForm now s)) = all_set (resetForm now s)"
  by (simp add: resetForm_def setDefaultDateTime_def all_set_def Let_def split: option.splits)

lemma validateForm_frame:
  "depth_options (validateForm s) = depth_options s"
  "situation_chips (validateForm s) = situation_chips s"
  "formState (validateForm s) = formState s"
  by (simp_all add: validateForm_def)

lemma has_class_clear: "map has_class (clear_class cs) = replicate (length cs) False"
  by (induction cs) (simp_all add: clear_class_def)

lemma chip_value_clear: "map chip_value (clear_class cs) = map chip_value cs"
  by (simp add: clear_class_def)

lemma filter_single: "i < n \<Longrightarrow> filter (\<lambda>b. b) ((replicate n False)[i := True]) = [True]"
proof (induction n arbitrary: i)
  case 0
  then show ?case by simp
next
  case (Suc n)
  then show ?case by (cases i) simp_all
qed

text \<open>Clearing the class in a group and setting it on the element at index \<open>i\<close>.\<close>

lemma select_chip:
  assumes "i < length cs"
  shows "map has_class ((clear_class cs)[i := (clear_class cs ! i)\<lparr>has_class := True\<rparr>])
           = (replicate (length cs) False)[i := True]"
    and "map chip_value ((clear_class cs)[i := (clear_class cs ! i)\<lparr>has_class := True\<rparr>])
           = map chip_value cs"
    and "chip_value ((clear_class cs ! i)\<lparr>has_class := True\<rparr>) = chip_value (cs ! i)"
proof -
  have nth: "clear_class cs ! i = (cs ! i)\<lparr>has_class := False\<rparr>"
    using assms by (simp add: clear_class_def)
  show "map has_class ((clear_class cs)[i := (clear_class cs ! i)\<lparr>has_class := True\<rparr>])
           = (replicate (length cs) False)[i := True]"
    by (simp add: map_update has_class_clear)
  have "map chip_value ((clear_class cs)[i := (clear_class cs ! i)\<lparr>has_class := True\<rparr>])
          = (map chip_value (clear_class cs))[i := chip_value (cs ! i)]"
    by (simp add: map_update nth)
  then have "map chip_value ((clear_class cs)[i := (clear_class cs ! i)\<lparr>has_class := True\<rparr>])
          = (map chip_value cs)[i := chip_value (cs ! i)]"
    by (simp only: chip_value_clear)
  then show "map chip_value ((clear_class cs)[i := (clear_class cs ! i)\<lparr>has_class := True\<rparr>])
           = map chip_value cs"
    using assms by (simp add: list_update_same_conv)
  show "chip_value ((clear_class cs ! i)\<lparr>has_class := True\<rparr>) = chip_value (cs ! i)"
    by (simp add: nth)
qed


section \<open>Submitting a report\<close>

text \<open>
  C1. A valid submission (location, depth, situation, date and time all set) succeeds,
  appends exactly one report to \<open>floodReports\<close>, the new report's location is the
  submitted coordinate, and one flood marker for that report, at that coordinate, is added
  to the floods layer.
\<close>

theorem handleFormSubmit_appends:
  assumes "form_location (formState s) = Some ll"
    and "truthy (form_depth (formState s))"
    and "truthy (form_situation (formState s))"
    and "eventDate s \<noteq> []" and "eventTime s \<noteq> []"
  shows "\<exists>s' r. handleFormSubmit now s = Inr s'
           \<and> floodReports s' = floodReports s @ [r]
           \<and> length (floodReports s') = length (floodReports s) + 1
           \<and> location r = ll
           \<and> floods s' = floods s @
                [\<lparr>marker_latlng = (lat ll, lng ll), marker_icon = depth r, reportData = r\<rparr>]"
  using assms(1)
  by (simp add: handleFormSubmit_def handler_defs flood_marker_def Let_def split: option.splits)

theorem handleFormSubmit_appends_witness:
  "form_location (formState filled_form) = Some \<lparr>lat = 30.25, lng = 120.15\<rparr>
   \<and> truthy (form_depth (formState filled_form))
   \<and> truthy (form_situation (formState filled_form))
   \<and> eventDate filled_form \<noteq> [] \<and> eventTime filled_form \<noteq> []
   \<and> (\<exists>s' r. handleFormSubmit clock0 filled_form = Inr s'
           \<and> floodReports s' = floodReports filled_form @ [r]
           \<and> length (floodReports s') = length (floodReports filled_form) + 1
           \<and> location r = \<lparr>lat = 30.25, lng = 120.15\<rparr>
           \<and> floods s' = floods filled_form @
                [\<lparr>marker_latlng = (lat \<lparr>lat = 30.25, lng = 120.15\<rparr>,
                                   lng \<lparr>lat = 30.25, lng = 120.15\<rparr>),
                  marker_icon = depth r, reportData = r\<rparr>])"
proof -
  have h: "form_location (formState filled_form) = Some \<lparr>lat = 30.25, lng = 120.15\<rparr>"
    "truthy (form_depth (formState filled_form))"
    "truthy (form_situation (formState filled_form))"
    "eventDate filled_form \<noteq> []" "eventTime filled_form \<noteq> []"
    by (simp_all add: filled_form_fields js_def)
  from handleFormSubmit_appends [OF h, of clock0] h show ?thesis by blast
qed

text \<open>
  What a successful submission leaves of the form: no temporary marker (\<open>currentMarker\<close>
  is \<open>null\<close> and the marker is off the map), an empty draft, no photo and no preview, the
  submit control disabled, the date input at the UTC date of the clock's reading and the
  time input at its local time.
\<close>

lemma form_reset_after_submit:
  assumes "handleFormSubmit now s = Inr s'"
  shows "currentMarker s' = None
       \<and> map_markers s' = (case currentMarker s of None \<Rightarrow> map_markers s
                            | Some m \<Rightarrow> remove1 m (map_markers s))
       \<and> formState s' = \<lparr>form_location = None, form_depth = JNull, form_situation = JNull\<rparr>
       \<and> selectedLocation s' = None
       \<and> uploadedPhoto s' = None \<and> photoPreview s' = None \<and> \<not> photo_has_image s'
       \<and> eventDate s' = split_first 0x54 (iso_string now)
       \<and> eventTime s' = slice0 5 (time_string now)
       \<and> submitDisabled s'"
  using assms
  by (auto simp add: handleFormSubmit_def handler_defs Let_def split: option.splits)


lemma form_reset_after_submit_example:
  "\<exists>s'. handleFormSubmit clock0 filled_form = Inr s'
       \<and> currentMarker s' = None
       \<and> map_markers s' = []
       \<and> formState s' = \<lparr>form_location = None, form_depth = JNull, form_situation = JNull\<rparr>
       \<and> selectedLocation s' = None
       \<and> uploadedPhoto s' = None \<and> photoPreview s' = None \<and> \<not> photo_has_image s'
       \<and> eventDate s' = js ''2025-06-15''
       \<and> eventTime s' = js ''23:06''
       \<and> submitDisabled s'"
proof -
  have "\<exists>s'. handleFormSubmit clock0 filled_form = Inr s'"
    by (simp add: handleFormSubmit_def filled_form_fields(1) Let_def)
  then obtain s' where s': "handleFormSubmit clock0 filled_form = Inr s'" ..
  have d: "split_first 0x54 (iso_string clock0) = js ''2025-06-15''"
    by (simp add: clock0_def js_def split_first_def)
  have t: "slice0 5 (time_string clock0) = js ''23:06''"
    by (simp add: clock0_def js_def slice0_def)
  have m: "(case currentMarker filled_form of None \<Rightarrow> map_markers filled_form
            | Some m \<Rightarrow> remove1 m (map_markers filled_form)) = []"
    by (simp add: filled_form_fields(8,9))
  from form_reset_after_submit [OF s'] s' show ?thesis
    unfolding d t m by blast
qed


text \<open>
  C9. After a successful submission the form is reset, and date and time are meant to be
  back at the current date and time. The date input receives the UTC date, the time input
  the local time: a submission in Hangzhou at 01:30 on 15 June 2025 leaves the form at
  2025-06-14, 01:30.
\<close>

theorem reset_date_is_utc_date:
  "\<exists>s'. handleFormSubmit night_clock night_form = Inr s'
       \<and> currentMarker s' = None
       \<and> formState s' = \<lparr>form_location = None, form_depth = JNull, form_situation = JNull\<rparr>
       \<and> uploadedPhoto s' = None \<and> photoPreview s' = None
       \<and> submitDisabled s'
       \<and> eventDate s' = js ''2025-06-14''
       \<and> eventTime s' = js ''01:30''"
proof -
  have "form_location (formState night_form) = Some \<lparr>lat = 30.25, lng = 120.15\<rparr>"
    by (simp add: night_form_def night_clock_def session_defs handler_defs Let_def)
  then have "\<exists>s'. handleFormSubmit night_clock night_form = Inr s'"
    by (simp add: handleFormSubmit_def Let_def)
  then obtain s' where s': "handleFormSubmit night_clock night_form = Inr s'" ..
  have d: "split_first 0x54 (iso_string night_clock) = js ''2025-06-14''"
    by (simp add: night_clock_def js_def split_first_def)
  have t: "slice0 5 (time_string night_clock) = js ''01:30''"
    by (simp add: night_clock_def js_def slice0_def)
  from form_reset_after_submit [OF s'] s' show ?thesis
    unfolding d t by blast
qed


section \<open>The validation gate\<close>

text \<open>
  C2. After a map click, a depth selection, a situation selection, a date edit, a time
  edit and a form reset, the submit control is enabled if and only if location, depth,
  situation, date and time are all set. With depth and situation selected and no location,
  it is disabled.
\<close>

theorem submit_enabled_iff_all_set:
  "(\<not> submitDisabled (handleMapClick ll s)) = all_set (handleMapClick ll s)
   \<and> (\<not> submitDisabled (handleDepthSelect i s)) = all_set (handleDepthSelect i s)
   \<and> (\<not> submitDisabled (handleSituationSelect i s)) = all_set (handleSituationSelect i s)
   \<and> (\<not> submitDisabled (dispatch (DateChange v) s)) = all_set (dispatch (DateChange v) s)
   \<and> (\<not> submitDisabled (dispatch (TimeChange v) s)) = all_set (dispatch (TimeChange v) s)
   \<and> (\<not> submitDisabled (resetForm now s)) = all_set (resetForm now s)
   \<and> submitDisabled (handleSituationSelect j (handleDepthSelect i
        (s\<lparr>formState := (formState s)\<lparr>form_location := None\<rparr>\<rparr>)))"
proof -
  have a: "(\<not> submitDisabled (handleMapClick ll s)) = all_set (handleMapClick ll s)"
    unfolding handleMapClick_def Let_def by (rule validateForm_gate)
  have b: "(\<not> submitDisabled (handleDepthSelect i s)) = all_set (handleDepthSelect i s)"
    unfolding handleDepthSelect_def Let_def by (rule validateForm_gate)
  have c: "(\<not> submitDisabled (handleSituationSelect i s)) = all_set (handleSituationSelect i s)"
    unfolding handleSituationSelect_def Let_def by (rule validateForm_gate)
  have d: "(\<not> submitDisabled (dispatch (DateChange v) s)) = all_set (dispatch (DateChange v) s)"
    unfolding dispatch.simps by (rule validateForm_gate)
  have e: "(\<not> submitDisabled (dispatch (TimeChange v) s)) = all_set (dispatch (TimeChange v) s)"
    unfolding dispatch.simps by (rule validateForm_gate)
  have f: "submitDisabled (handleSituationSelect j (handleDepthSelect i
        (s\<lparr>formState := (formState s)\<lparr>form_location := None\<rparr>\<rparr>)))"
    by (simp add: handleSituationSelect_def handleDepthSelect_def validateForm_def Let_def)
  from a b c d e f resetForm_gate show ?thesis by blast
qed


section \<open>Single selection in a chip group\<close>

text \<open>
  C7. After a depth selection the clicked option, and no other option of the group,
  carries \<open>selected\<close>, and \<open>formState.depth\<close> is the clicked option's value; the same for
  a situation selection and \<open>formState.situation\<close>.
\<close>

theorem single_selected_chip:
  assumes "i < length (depth_options s)" and "j < length (situation_chips s)"
  shows "map has_class (depth_options (handleDepthSelect i s))
           = (replicate (length (depth_options s)) False)[i := True]
       \<and> length (filter has_class (depth_options (handleDepthSelect i s))) = 1
       \<and> map chip_value (depth_options (handleDepthSelect i s)) = map chip_value (depth_options s)
       \<and> form_depth (formState (handleDepthSelect i s)) = chip_value (depth_options s ! i)
       \<and> map has_class (situation_chips (handleSituationSelect j s))
           = (replicate (length (situation_chips s)) False)[j := True]
       \<and> length (filter has_class (situation_chips (handleSituationSelect j s))) = 1
       \<and> map chip_value (situation_chips (handleSituationSelect j s))
           = map chip_value (situation_chips s)
       \<and> form_situation (formState (handleSituationSelect j s))
           = chip_value (situation_chips s ! j)"
proof -
  let ?d = "depth_options (handleDepthSelect i s)"
  let ?c = "situation_chips (handleSituationSelect j s)"
  have d1: "map has_class ?d = (replicate (length (depth_options s)) False)[i := True]"
    using select_chip(1)[OF assms(1)]
    by (simp add: handleDepthSelect_def Let_def validateForm_frame)
  have "length (filter has_class ?d) = length (filter (\<lambda>b. b) (map has_class ?d))"
    by (simp add: filter_map comp_def)
  with d1 assms(1) have d2: "length (filter has_class ?d) = 1"
    by (simp add: filter_single)
  have d3: "map chip_value ?d = map chip_value (depth_options s)"
    using select_chip(2)[OF assms(1)]
    by (simp add: handleDepthSelect_def Let_def validateForm_frame)
  have d4: "form_depth (formState (handleDepthSelect i s)) = chip_value (depth_options s ! i)"
    using select_chip(3)[OF assms(1)]
    by (simp add: handleDepthSelect_def Let_def validateForm_frame)
  have c1: "map has_class ?c = (replicate (length (situation_chips s)) False)[j := True]"
    using select_chip(1)[OF assms(2)]
    by (simp add: handleSituationSelect_def Let_def validateForm_frame)
  have "length (filter has_class ?c) = length (filter (\<lambda>b. b) (map has_class ?c))"
    by (simp add: filter_map comp_def)
  with c1 assms(2) have c2: "length (filter has_class ?c) = 1"
    by (simp add: filter_single)
  have c3: "map chip_value ?c = map chip_value (situation_chips s)"
    using select_chip(2)[OF assms(2)]
    by (simp add: handleSituationSelect_def Let_def validateForm_frame)
  have c4: "form_situation (formState (handleSituationSelect j s))
              = chip_value (situation_chips s ! j)"
    using select_chip(3)[OF assms(2)]
    by (simp add: handleSituationSelect_def Let_def validateForm_frame)
  from d1 d2 d3 d4 c1 c2 c3 c4 show ?thesis by blast
qed

theorem single_selected_chip_witness:
  "3 < length (depth_options filled_form) \<and> 0 < length (situation_chips filled_form)
   \<and> map has_class (depth_options (handleDepthSelect 3 filled_form))
        = [False, False, False, True]
   \<and> length (filter has_class (depth_options (handleDepthSelect 3 filled_form))) = 1
   \<and> form_depth (formState (handleDepthSelect 3 filled_form)) = JString (js ''severe'')
   \<and> map has_class (situation_chips (handleSituationSelect 0 filled_form))
        = [True, False, False, False]
   \<and> length (filter has_class (situation_chips (handleSituationSelect 0 filled_form))) = 1
   \<and> form_situation (formState (handleSituationSelect 0 filled_form)) = JString (js ''home'')"
proof -
  have h: "3 < length (depth_options filled_form)" "0 < length (situation_chips filled_form)"
    by (simp_all add: filled_form_fields)
  have r: "(replicate (length (depth_options filled_form)) False)[3 := True]
             = [False, False, False, True]"
    "(replicate (length (situation_chips filled_form)) False)[0 := True]
             = [True, False, False, False]"
    by (simp_all add: filled_form_fields numeral_eq_Suc)
  have v: "chip_value (depth_options filled_form ! 3) = JString (js ''severe'')"
    "chip_value (situation_chips filled_form ! 0) = JString (js ''home'')"
    by (simp_all add: filled_form_def session_defs handler_defs Let_def)
  from single_selected_chip [OF h] h show ?thesis
    unfolding r v by blast
qed


section \<open>Filtering the flood markers\<close>

lemma js_lt_total: "(\<not> js_lt a b) = (a = b \<or> js_lt b a)"
  by (induction a b rule: js_lt.induct) auto

lemma show_report_iff: "show_report d f t r = criteria_met d f t r"
proof -
  have a: "(\<not> js_lt (date r) f) = js_le f (date r)"
    using js_lt_total [of "date r" f] by (auto simp add: js_le_def)
  have b: "(\<not> js_lt t (date r)) = js_le (date r) t"
    using js_lt_total [of t "date r"] by (auto simp add: js_le_def)
  show ?thesis
    unfolding show_report_def criteria_met_def Let_def using a b by auto
qed

lemma foldl_add_markers:
  "foldl (\<lambda>st r. if P r then addFloodMarker r st else st) s rs
     = s\<lparr>floods := floods s @ map flood_marker (filter P rs)\<rparr>"
  by (induction rs arbitrary: s) (simp_all add: addFloodMarker_def)

lemma filterReports_eq:
  "filterReports s =
     (case find has_class (filter_chips s) of
        None \<Rightarrow> Inl TypeError
      | Some c \<Rightarrow> Inr (s\<lparr>floods := map flood_marker
          (filter (show_report (chip_value c) (filterDateFrom s) (filterDateTo s))
             (floodReports s))\<rparr>))"
  by (simp add: filterReports_def Let_def foldl_add_markers split: option.splits)

text \<open>
  C3. With a filter chip active, \<open>filterReports\<close> succeeds and the floods layer then
  holds exactly the markers of the stored reports that meet the three criteria, in store
  order, whatever the layer held before. With depth \<open>all\<close> and both bounds empty that
  is the marker of every stored report.
\<close>

theorem filterReports_rebuilds:
  assumes "find has_class (filter_chips s) = Some c"
  shows "\<exists>s'. filterReports s = Inr s'
        \<and> floods s' = map flood_marker
            (filter (criteria_met (chip_value c) (filterDateFrom s) (filterDateTo s))
               (floodReports s))
        \<and> (chip_value c = JString (js ''all'') \<and> filterDateFrom s = [] \<and> filterDateTo s = []
             \<longrightarrow> floods s' = map flood_marker (floodReports s))"
proof -
  have eq: "show_report (chip_value c) (filterDateFrom s) (filterDateTo s)
          = criteria_met (chip_value c) (filterDateFrom s) (filterDateTo s)"
    by (rule ext) (rule show_report_iff)
  have all: "chip_value c = JString (js ''all'') \<and> filterDateFrom s = [] \<and> filterDateTo s = []
      \<longrightarrow> filter (criteria_met (chip_value c) (filterDateFrom s) (filterDateTo s)) (floodReports s)
          = floodReports s"
    by (simp add: criteria_met_def)
  show ?thesis
    using assms all by (simp add: filterReports_eq eq)
qed

text \<open>
  C8. \<open>filterReports\<close> changes the floods layer and nothing else: \<open>floodReports\<close> and
  the report list are what they were.
\<close>

theorem filterReports_frame:
  assumes "filterReports s = Inr s'"
  shows "floodReports s' = floodReports s \<and> reportItems s' = reportItems s
       \<and> s' = s\<lparr>floods := floods s'\<rparr>"
  using assms by (auto simp add: filterReports_eq split: option.splits)

lemma filter_session_fields:
  "floodReports filter_session = demoReports clock0"
  "find has_class (filter_chips filter_session)
     = Some \<lparr>chip_value = JString (js ''severe''), has_class = True\<rparr>"
  "filterDateFrom filter_session = js ''2025-06-14''"
  "filterDateTo filter_session = js ''2025-06-15''"
  "map report_id (map reportData (floods filter_session)) = [4]"
  by (simp_all add: filter_session_def run_def or_unchanged_def handleFilterChipClick_def
      filterReports_eq DOMContentLoaded_def addDemoData_def page_load_def spec_page_def
      handler_defs Let_def show_report_def demoReports_def js_def flood_marker_def)

lemma severe_filter_on_demo:
  "filter (show_report (JString (js ''severe'')) (js ''2025-06-14'') (js ''2025-06-15''))
     (demoReports now) = [demoReports now ! 3]"
  by (simp add: demoReports_def show_report_def js_def)

text \<open>
  C6. Over the five demo reports, the filter severe, 2025-06-14 to 2025-06-15 leaves exactly
  one marker, that of the report with id 4 (severe, 2025-06-14).
\<close>

theorem filter_demo_severe:
  assumes "floodReports s = demoReports now"
    and "find has_class (filter_chips s) = Some c"
    and "chip_value c = JString (js ''severe'')"
    and "filterDateFrom s = js ''2025-06-14''"
    and "filterDateTo s = js ''2025-06-15''"
  shows "\<exists>s'. filterReports s = Inr s'
        \<and> floods s' = [flood_marker (demoReports now ! 3)]
        \<and> length (floods s') = 1
        \<and> report_id (demoReports now ! 3) = 4
        \<and> depth (demoReports now ! 3) = JString (js ''severe'')
        \<and> date (demoReports now ! 3) = js ''2025-06-14''"
proof -
  have r: "report_id (demoReports now ! 3) = 4"
    "depth (demoReports now ! 3) = JString (js ''severe'')"
    "date (demoReports now ! 3) = js ''2025-06-14''"
    by (simp_all add: demoReports_def)
  show ?thesis
    using assms r by (simp add: filterReports_eq severe_filter_on_demo)
qed

lemma filled_form_filter:
  "find has_class (filter_chips filled_form)
     = Some \<lparr>chip_value = JString (js ''all''), has_class = True\<rparr>"
  "filterDateFrom filled_form = []"
  "filterDateTo filled_form = []"
  by (simp_all add: filled_form_def session_defs handler_defs Let_def)

theorem filterReports_rebuilds_witness:
  "find has_class (filter_chips filled_form)
     = Some \<lparr>chip_value = JString (js ''all''), has_class = True\<rparr>
   \<and> filterDateFrom filled_form = [] \<and> filterDateTo filled_form = []
   \<and> (\<exists>s'. filterReports filled_form = Inr s'
          \<and> floods s' = map flood_marker (floodReports filled_form))"
proof -
  have "chip_value \<lparr>chip_value = JString (js ''all''), has_class = True\<rparr> = JString (js ''all'')"
    by simp
  with filterReports_rebuilds [OF filled_form_filter(1)] filled_form_filter
  show ?thesis by blast
qed

theorem filterReports_frame_witness:
  "\<exists>s'. filterReports filter_session = Inr s'
       \<and> floodReports s' = floodReports filter_session
       \<and> reportItems s' = reportItems filter_session
       \<and> s' = filter_session\<lparr>floods := floods s'\<rparr>"
proof -
  have "\<exists>s'. filterReports filter_session = Inr s'"
    by (simp add: filterReports_eq filter_session_fields(2))
  then obtain s' where s': "filterReports filter_session = Inr s'" ..
  from filterReports_frame [OF s'] s' show ?thesis by blast
qed

theorem filter_demo_severe_witness:
  "floodReports filter_session = demoReports clock0
   \<and> find has_class (filter_chips filter_session)
        = Some \<lparr>chip_value = JString (js ''severe''), has_class = True\<rparr>
   \<and> filterDateFrom filter_session = js ''2025-06-14''
   \<and> filterDateTo filter_session = js ''2025-06-15''
   \<and> (\<exists>s'. filterReports filter_session = Inr s'
          \<and> floods s' = [flood_marker (demoReports clock0 ! 3)]
          \<and> length (floods s') = 1
          \<and> report_id (demoReports clock0 ! 3) = 4)"
proof -
  have v: "chip_value \<lparr>chip_value = JString (js ''severe''), has_class = True\<rparr>
             = JString (js ''severe'')"
    by simp
  from filter_demo_severe [OF filter_session_fields(1,2) v filter_session_fields(3,4)]
    filter_session_fields
  show ?thesis by blast
qed


section \<open>Independence of the layer loads\<close>

lemma loadLayer_settles:
  assumes "settles (net url)"
  shows "\<exists>s'. loadLayer net url name tgt s = Settled s'
         \<and> geo_layers s' = (geo_layers s)(tgt := geo_layers s tgt @ rendered (net url))
         \<and> set (console s) \<subseteq> set (console s')
         \<and> (load_fails (net url) \<longrightarrow> LogFailed name url \<in> set (console s'))"
proof (cases "net url")
  case FetchPending
  with assms show ?thesis by simp
next
  case FetchRejected
  then show ?thesis by (auto simp add: loadLayer_def console_log_def Let_def)
next
  case (Response ok status body)
  show ?thesis
  proof (cases ok)
    case False
    with Response show ?thesis by (auto simp add: loadLayer_def console_log_def Let_def)
  next
    case True
    show ?thesis
    proof (cases body)
      case BodyPending
      with assms Response True show ?thesis by simp
    next
      case BodyRejected
      with Response True show ?thesis by (auto simp add: loadLayer_def console_log_def Let_def)
    next
      case (BodyParsed data)
      with Response True show ?thesis
        by (cases data) (auto simp add: loadLayer_def console_log_def Let_def)
    qed
  qed
qed

lemma load_each_settles:
  assumes "list_all (\<lambda>e. settles (net (fst e))) specs"
    and "distinct (map (\<lambda>e. snd (snd e)) specs)"
  shows "\<exists>s'. load_each net specs s = Settled s'
         \<and> list_all (\<lambda>e.
               geo_layers s' (snd (snd e)) = geo_layers s (snd (snd e)) @ rendered (net (fst e))
               \<and> (load_fails (net (fst e))
                    \<longrightarrow> LogFailed (fst (snd e)) (fst e) \<in> set (console s'))) specs
         \<and> (\<forall>t. t \<notin> set (map (\<lambda>e. snd (snd e)) specs) \<longrightarrow> geo_layers s' t = geo_layers s t)
         \<and> set (console s) \<subseteq> set (console s')"
  using assms
proof (induction specs arbitrary: s)
  case Nil
  then show ?case by simp
next
  case (Cons e specs)
  obtain url name tgt where e: "e = (url, name, tgt)" by (cases e)
  from Cons.prems e have st: "settles (net url)"
    and rest: "list_all (\<lambda>e. settles (net (fst e))) specs"
    and fresh: "tgt \<notin> set (map (\<lambda>e. snd (snd e)) specs)"
    and dist: "distinct (map (\<lambda>e. snd (snd e)) specs)"
    by simp_all
  from loadLayer_settles [where net = net and url = url and name = name and tgt = tgt and s = s, OF st]
  obtain s1 where
    s1: "loadLayer net url name tgt s = Settled s1"
    and g1: "geo_layers s1 = (geo_layers s)(tgt := geo_layers s tgt @ rendered (net url))"
    and c1: "set (console s) \<subseteq> set (console s1)"
    and f1: "load_fails (net url) \<longrightarrow> LogFailed name url \<in> set (console s1)"
    by blast
  from Cons.IH [OF rest dist, of s1] obtain s' where
    s': "load_each net specs s1 = Settled s'"
    and all: "list_all (\<lambda>e.
               geo_layers s' (snd (snd e)) = geo_layers s1 (snd (snd e)) @ rendered (net (fst e))
               \<and> (load_fails (net (fst e))
                    \<longrightarrow> LogFailed (fst (snd e)) (fst e) \<in> set (console s'))) specs"
    and other: "\<forall>t. t \<notin> set (map (\<lambda>e. snd (snd e)) specs) \<longrightarrow> geo_layers s' t = geo_layers s1 t"
    and c2: "set (console s1) \<subseteq> set (console s')"
    by blast
  have run: "load_each net (e # specs) s = Settled s'"
    using e s1 s' by simp
  have here: "geo_layers s' tgt = geo_layers s tgt @ rendered (net url)"
    using other fresh g1 by simp
  have logged: "load_fails (net url) \<longrightarrow> LogFailed name url \<in> set (console s')"
    using f1 c2 by blast
  have all': "list_all (\<lambda>e.
               geo_layers s' (snd (snd e)) = geo_layers s (snd (snd e)) @ rendered (net (fst e))
               \<and> (load_fails (net (fst e))
                    \<longrightarrow> LogFailed (fst (snd e)) (fst e) \<in> set (console s'))) specs"
    using all fresh g1 by (auto simp add: list_all_iff)
  have other': "\<forall>t. t \<notin> set (map (\<lambda>e. snd (snd e)) (e # specs)) \<longrightarrow> geo_layers s' t = geo_layers s t"
    using other g1 e by simp
  from run here logged all' other' c1 c2 e show ?case by auto
qed

text \<open>A fetch that stays pending keeps the loads after it from starting.\<close>

lemma load_each_suspends:
  "net url = FetchPending \<Longrightarrow>
   load_each net ((url, name, tgt) # rest) s = Suspended (console_log (LogLoading name url) s)"
  by (simp add: loadLayer_def Let_def)

text \<open>
  C4. Whatever fails among the six loads (network error, non-success status, parse
  failure), as long as every fetch settles: \<open>loadGeoJSONData\<close> runs to its end, every
  layer group receives exactly what its own file yields (nothing for a failed one, the
  rendered data for each of the others), and each failure is logged under its layer's name.
\<close>

theorem layer_loads_independent:
  assumes "list_all (\<lambda>e. settles (net (fst e))) layer_specs"
  shows "\<exists>s'. loadGeoJSONData net s = Settled s'
         \<and> list_all (\<lambda>e.
               geo_layers s' (snd (snd e)) = geo_layers s (snd (snd e)) @ rendered (net (fst e))
               \<and> (load_fails (net (fst e))
                    \<longrightarrow> LogFailed (fst (snd e)) (fst e) \<in> set (console s')))
             layer_specs"
proof -
  have "distinct (map (\<lambda>e. snd (snd e)) layer_specs)"
    by (simp add: layer_specs_def)
  from load_each_settles [OF assms this, of s] show ?thesis
    unfolding loadGeoJSONData_def by blast
qed

lemma net0_settles: "list_all (\<lambda>e. settles (net0 (fst e))) layer_specs"
  by (simp add: layer_specs_def net0_def js_def)

theorem layer_loads_independent_witness:
  "list_all (\<lambda>e. settles (net0 (fst e))) layer_specs
   \<and> load_fails (net0 (js ''water.geojson''))
   \<and> (\<exists>s'. loadGeoJSONData net0 (page_load spec_page) = Settled s'
        \<and> geo_layers s' Boundary = [FeatureCollection []]
        \<and> geo_layers s' Roads = [FeatureCollection []]
        \<and> geo_layers s' Water = []
        \<and> geo_layers s' Parks = [FeatureCollection []]
        \<and> geo_layers s' Amenities = [FeatureCollection []]
        \<and> geo_layers s' Metro = [FeatureCollection
             [\<lparr>prop_name = JString (js ''Longxiangqiao''), prop_category = JUndefined,
               prop_address = JUndefined\<rparr>]]
        \<and> LogFailed (js ''water'') (js ''water.geojson'') \<in> set (console s'))"
proof -
  have f: "load_fails (net0 (js ''water.geojson''))"
    by (simp add: net0_def)
  from layer_loads_independent [OF net0_settles, of "page_load spec_page"]
  obtain s' where s': "loadGeoJSONData net0 (page_load spec_page) = Settled s'"
    and all: "list_all (\<lambda>e.
               geo_layers s' (snd (snd e))
                 = geo_layers (page_load spec_page) (snd (snd e)) @ rendered (net0 (fst e))
               \<and> (load_fails (net0 (fst e))
                    \<longrightarrow> LogFailed (fst (snd e)) (fst e) \<in> set (console s')))
             layer_specs"
    by blast
  from all have "geo_layers s' Boundary = [FeatureCollection []]
        \<and> geo_layers s' Roads = [FeatureCollection []]
        \<and> geo_layers s' Water = []
        \<and> geo_layers s' Parks = [FeatureCollection []]
        \<and> geo_layers s' Amenities = [FeatureCollection []]
        \<and> geo_layers s' Metro = [FeatureCollection
             [\<lparr>prop_name = JString (js ''Longxiangqiao''), prop_category = JUndefined,
               prop_address = JUndefined\<rparr>]]
        \<and> LogFailed (js ''water'') (js ''water.geojson'') \<in> set (console s')"
    by (simp add: layer_specs_def net0_def page_load_def js_def)
  with net0_settles f s' show ?thesis by blast
qed


section \<open>Report ids\<close>

lemma same_ms_ids:
  "map report_id (floodReports same_ms_session)
     = [1, 2, 3, 4, 5, 1750000000000, 1750000000000]"
  by (simp add: same_ms_session_def session_defs handler_defs handleFormSubmit_def Let_def)

text \<open>
  C5, as stated, fails: two submissions that read the same millisecond off the clock give
  two reports with the same id.
\<close>

theorem ids_collide_counterexample:
  "\<not> distinct (map report_id (floodReports same_ms_session))"
  by (simp add: same_ms_ids)

lemma floodReports_frame:
  "floodReports (validateForm s) = floodReports s"
  "floodReports (handleMapClick ll s) = floodReports s"
  "floodReports (handleDepthSelect i s) = floodReports s"
  "floodReports (handleSituationSelect i s) = floodReports s"
  "floodReports (handlePhotoUpload p s) = floodReports s"
  by (simp_all add: handler_defs Let_def split: option.splits)

lemma floodReports_filter:
  "floodReports (or_unchanged s (filterReports s)) = floodReports s"
  by (simp add: or_unchanged_def filterReports_eq split: option.splits)

lemma floodReports_submit:
  "map report_id (floodReports (or_unchanged s (handleFormSubmit now s)))
     = map report_id (floodReports s)
       @ (if form_location (formState s) = None then [] else [now_ms now])"
  by (simp add: or_unchanged_def handleFormSubmit_def handler_defs Let_def
      split: option.splits)

lemma dispatch_ids:
  "map report_id (floodReports (dispatch e s))
     = map report_id (floodReports s)
       @ (case e of
            Submit now \<Rightarrow> if form_location (formState s) = None then [] else [now_ms now]
          | _ \<Rightarrow> [])"
proof (cases e)
  case (Submit now)
  then show ?thesis by (simp add: floodReports_submit)
next
  case (FilterChipClick i)
  have "floodReports (or_unchanged s (handleFilterChipClick i s)) = floodReports s"
    by (simp add: or_unchanged_def handleFilterChipClick_def filterReports_eq Let_def
        split: option.splits)
  with FilterChipClick show ?thesis by simp
next
  case (FilterFromChange v)
  with floodReports_filter [of "s\<lparr>filterDateFrom := v\<rparr>"] show ?thesis by simp
next
  case (FilterToChange v)
  with floodReports_filter [of "s\<lparr>filterDateTo := v\<rparr>"] show ?thesis by simp
qed (simp_all add: floodReports_frame)

lemma run_Cons: "run (e # evs) s = run evs (dispatch e s)"
  by (simp add: run_def)

lemma run_ids_increasing:
  assumes "sorted_wrt (<) (map report_id (floodReports s) @ submit_clocks evs)"
  shows "sorted_wrt (<) (map report_id (floodReports (run evs s)))
       \<and> (\<exists>cs. map report_id (floodReports (run evs s)) = map report_id (floodReports s) @ cs
              \<and> set cs \<subseteq> set (submit_clocks evs))"
  using assms
proof (induction evs arbitrary: s)
  case Nil
  then show ?case by (simp add: run_def)
next
  case (Cons e evs)
  let ?s1 = "dispatch e s"
  obtain d where d: "map report_id (floodReports ?s1) = map report_id (floodReports s) @ d"
    and dc: "submit_clocks (e # evs) = d @ submit_clocks evs \<or> (d = [] \<and> (\<exists>c. submit_clocks (e # evs) = c # submit_clocks evs))"
    using dispatch_ids [of e s] by (cases e) auto
  from dc have sub: "set d \<subseteq> set (submit_clocks (e # evs))"
    and sub2: "set (submit_clocks evs) \<subseteq> set (submit_clocks (e # evs))" by auto
  from dc Cons.prems have "sorted_wrt (<) (map report_id (floodReports s) @ d @ submit_clocks evs)"
    by (auto simp add: sorted_wrt_append)
  with d have "sorted_wrt (<) (map report_id (floodReports ?s1) @ submit_clocks evs)" by simp
  from Cons.IH [OF this] obtain cs where
    a: "sorted_wrt (<) (map report_id (floodReports (run evs ?s1)))"
    and b: "map report_id (floodReports (run evs ?s1)) = map report_id (floodReports ?s1) @ cs"
    and c: "set cs \<subseteq> set (submit_clocks evs)"
    by blast
  from b d have "map report_id (floodReports (run (e # evs) s))
      = map report_id (floodReports s) @ (d @ cs)" by (simp add: run_Cons)
  moreover from sub sub2 c have "set (d @ cs) \<subseteq> set (submit_clocks (e # evs))" by auto
  ultimately show ?case using a by (auto simp add: run_Cons)
qed

lemma increasing_distinct: "sorted_wrt (<) (xs :: int list) \<Longrightarrow> distinct xs"
  by (induction xs) auto

lemma demo_ids: "map report_id (floodReports (DOMContentLoaded pg now)) = [1, 2, 3, 4, 5]"
  by (simp add: DOMContentLoaded_def addDemoData_def demoReports_def page_load_def
      handler_defs Let_def)

text \<open>
  C5 (amended). An id is the clock reading in milliseconds at the submission. In a session
  whose submissions read strictly increasing values above 5 off the clock, the ids in the
  store, those of the five demo reports included, are increasing and pairwise distinct, and
  every id after the demo reports' is the clock reading of a submission.
\<close>

theorem ids_distinct_if_clock_increases:
  assumes "sorted_wrt (<) (5 # submit_clocks evs)"
  shows "distinct (map report_id (floodReports (run evs (DOMContentLoaded pg now))))
       \<and> sorted_wrt (<) (map report_id (floodReports (run evs (DOMContentLoaded pg now))))
       \<and> (\<exists>cs. map report_id (floodReports (run evs (DOMContentLoaded pg now)))
                 = [1, 2, 3, 4, 5] @ cs
              \<and> set cs \<subseteq> set (submit_clocks evs))"
proof -
  from assms have "sorted_wrt (<) ([1, 2, 3, 4, 5] @ submit_clocks evs)"
    by (auto simp add: sorted_wrt_append)
  then have "sorted_wrt (<)
      (map report_id (floodReports (DOMContentLoaded pg now)) @ submit_clocks evs)"
    by (simp only: demo_ids)
  from run_ids_increasing [OF this] show ?thesis
    by (auto simp add: demo_ids dest: increasing_distinct)
qed

lemma two_ms_clocks: "submit_clocks two_ms_session_events = [1750000000000, 1750000000001]"
  by (simp add: two_ms_session_events_def clock0_def later_def)

theorem ids_distinct_if_clock_increases_witness:
  "sorted_wrt (<) (5 # submit_clocks two_ms_session_events)
   \<and> distinct (map report_id
        (floodReports (run two_ms_session_events (DOMContentLoaded spec_page clock0))))
   \<and> map report_id (floodReports (run two_ms_session_events (DOMContentLoaded spec_page clock0)))
        = [1, 2, 3, 4, 5, 1750000000000, 1750000000001]"
proof -
  have h: "sorted_wrt (<) (5 # submit_clocks two_ms_session_events)"
    by (simp add: two_ms_clocks)
  have v: "map report_id
        (floodReports (run two_ms_session_events (DOMContentLoaded spec_page clock0)))
        = [1, 2, 3, 4, 5, 1750000000000, 1750000000001]"
    by (simp add: two_ms_session_events_def later_def session_defs handler_defs
        handleFormSubmit_def Let_def)
  from ids_distinct_if_clock_increases [OF h, of spec_page clock0] h v
  show ?thesis by blast
qed


section \<open>The date tests of the filter\<close>

lemma fields_nonempty: "fields s \<noteq> []"
  by (induction s) (auto split: list.splits)

lemma join_fields: "join_dash (fields s) = s"
proof (induction s)
  case Nil
  then show ?case by simp
next
  case (Cons c cs)
  obtain f fs where f: "fields cs = f # fs"
    using fields_nonempty [of cs] by (cases "fields cs") auto
  show ?case
  proof (cases "c = 0x2D")
    case True
    with Cons f show ?thesis by simp
  next
    case False
    with Cons f show ?thesis by (cases fs) auto
  qed
qed

lemma fields_three: "fields s = [y, m, d] \<Longrightarrow> s = y @ 0x2D # m @ 0x2D # d"
  using join_fields [of s] by simp

lemma js_lt_irrefl: "\<not> js_lt a a"
  by (induction a) auto

lemma js_lt_append:
  "length a = length a' \<Longrightarrow> js_lt (a @ b) (a' @ b') = (js_lt a a' \<or> (a = a' \<and> js_lt b b'))"
  by (induction a a' rule: list_induct2) auto

lemma foldl_dec:
  "foldl (\<lambda>n c. 10 * n + digit_val c) k s
     = k * 10 ^ length s + foldl (\<lambda>n c. 10 * n + digit_val c) 0 s"
proof (induction s arbitrary: k)
  case Nil
  then show ?case by simp
next
  case (Cons c s)
  have "foldl (\<lambda>n c. 10 * n + digit_val c) k (c # s)
          = (10 * k + digit_val c) * 10 ^ length s + foldl (\<lambda>n c. 10 * n + digit_val c) 0 s"
    using Cons [of "10 * k + digit_val c"] by simp
  moreover have "foldl (\<lambda>n c. 10 * n + digit_val c) 0 (c # s)
          = digit_val c * 10 ^ length s + foldl (\<lambda>n c. 10 * n + digit_val c) 0 s"
    using Cons [of "digit_val c"] by simp
  ultimately show ?case by (simp add: algebra_simps)
qed

lemma dec_Cons: "dec (c # s) = digit_val c * 10 ^ length s + dec s"
  using foldl_dec [of "digit_val c" s] by (simp add: dec_def)

lemma digit_val_less: "is_digit c \<Longrightarrow> digit_val c < 10"
  by (auto simp add: is_digit_def digit_val_def word_le_nat_alt)

lemma digit_val_mono: "is_digit x \<Longrightarrow> is_digit y \<Longrightarrow> (x < y) = (digit_val x < digit_val y)"
  by (auto simp add: is_digit_def digit_val_def word_le_nat_alt word_less_nat_alt)

lemma digit_step:
  fixes p :: nat
  assumes "a < b" and "r < p"
  shows "a * p + r < b * p + r'"
proof -
  from assms(1) have "a + 1 \<le> b" by simp
  then have "(a + 1) * p \<le> b * p" by (rule mult_le_mono1)
  moreover have "(a + 1) * p = a * p + p" by (simp add: algebra_simps)
  ultimately show ?thesis using assms(2) by linarith
qed

lemma dec_bound: "list_all is_digit s \<Longrightarrow> dec s < 10 ^ length s"
proof (induction s)
  case Nil
  then show ?case by (simp add: dec_def)
next
  case (Cons c s)
  then have "digit_val c < 10" and "dec s < 10 ^ length s"
    by (simp_all add: digit_val_less)
  then have "digit_val c * 10 ^ length s + dec s < 10 * 10 ^ length s + 0"
    by (rule digit_step)
  then show ?case by (simp add: dec_Cons)
qed

lemma dec_order:
  assumes "length a = length b" and "list_all is_digit a" and "list_all is_digit b"
  shows "js_lt a b = (dec a < dec b) \<and> (a = b) = (dec a = dec b)"
  using assms
proof (induction a b rule: list_induct2)
  case Nil
  then show ?case by (simp add: dec_def)
next
  case (Cons x xs y ys)
  from Cons.prems have dx: "is_digit x" and dy: "is_digit y"
    and ax: "list_all is_digit xs" and ay: "list_all is_digit ys"
    by simp_all
  from Cons.IH [OF ax ay]
  have ih: "js_lt xs ys = (dec xs < dec ys)" "(xs = ys) = (dec xs = dec ys)"
    by simp_all
  let ?p = "(10::nat) ^ length xs"
  have len: "length ys = length xs" using Cons.hyps by simp
  have bx: "dec xs < ?p" using dec_bound [OF ax] .
  have by': "dec ys < ?p" using dec_bound [OF ay] len by simp
  show ?case
  proof (cases "x = y")
    case True
    with ih len show ?thesis by (simp add: dec_Cons)
  next
    case False
    show ?thesis
    proof (cases "x < y")
      case True
      then have "digit_val x < digit_val y"
        using digit_val_mono [OF dx dy] by simp
      then have "digit_val x * ?p + dec xs < digit_val y * ?p + dec ys"
        using bx by (rule digit_step)
      with True False len show ?thesis by (simp add: dec_Cons)
    next
      case ge: False
      with False have "y < x" by simp
      then have "digit_val y < digit_val x"
        using digit_val_mono [OF dy dx] by simp
      then have "digit_val y * ?p + dec ys < digit_val x * ?p + dec xs"
        using by' by (rule digit_step)
      with ge False len show ?thesis by (simp add: dec_Cons)
    qed
  qed
qed

text \<open>The test on two dates of the zero-padded form is the test on year, month and day.\<close>

lemma iso_date_shape:
  assumes "iso_date s = Some D"
  shows "\<exists>y m d. s = y @ 0x2D # m @ 0x2D # d \<and> length y = 4 \<and> length m = 2 \<and> length d = 2
           \<and> list_all is_digit y \<and> list_all is_digit m \<and> list_all is_digit d
           \<and> D = (dec y, dec m, dec d)"
proof -
  from assms obtain y m d where f: "fields s = [y, m, d]"
    and l: "length y = 4" "length m = 2" "length d = 2"
    and p: "parse_ymd s = Some D"
    by (auto simp add: iso_date_def split: list.splits if_splits)
  from p f have "list_all is_digit y" "list_all is_digit m" "list_all is_digit d"
    "D = (dec y, dec m, dec d)"
    by (auto simp add: parse_ymd_def all_digits_def split: if_splits)
  with fields_three [OF f] l show ?thesis by blast
qed

lemma iso_js_lt:
  assumes "iso_date a = Some A" and "iso_date b = Some B"
  shows "js_lt a b = chron_lt A B"
proof -
  from iso_date_shape [OF assms(1)] obtain y m d where
    a: "a = y @ 0x2D # m @ 0x2D # d" and la: "length y = 4" "length m = 2" "length d = 2"
    and da: "list_all is_digit y" "list_all is_digit m" "list_all is_digit d"
    and A: "A = (dec y, dec m, dec d)" by blast
  from iso_date_shape [OF assms(2)] obtain y' m' d' where
    b: "b = y' @ 0x2D # m' @ 0x2D # d'" and lb: "length y' = 4" "length m' = 2" "length d' = 2"
    and db: "list_all is_digit y'" "list_all is_digit m'" "list_all is_digit d'"
    and B: "B = (dec y', dec m', dec d')" by blast
  have oy: "js_lt y y' = (dec y < dec y')" "(y = y') = (dec y = dec y')"
    using dec_order [of y y'] la lb da db by simp_all
  have om: "js_lt m m' = (dec m < dec m')" "(m = m') = (dec m = dec m')"
    using dec_order [of m m'] la lb da db by simp_all
  have od: "js_lt d d' = (dec d < dec d')"
    using dec_order [of d d'] la lb da db by simp
  have "js_lt a b = (js_lt y y' \<or> (y = y' \<and> js_lt (m @ 0x2D # d) (m' @ 0x2D # d')))"
    unfolding a b using la lb by (simp add: js_lt_append)
  also have "js_lt (m @ 0x2D # d) (m' @ 0x2D # d') = (js_lt m m' \<or> (m = m' \<and> js_lt d d'))"
    using la lb by (simp add: js_lt_append)
  finally show ?thesis
    unfolding A B by (simp add: oy om od)
qed

lemma chron_le_iff: "chron_le a b = (\<not> chron_lt b a)"
  by (cases a; cases b) (auto simp add: chron_le_def)

lemma iso_date_nonempty: "iso_date s = Some D \<Longrightarrow> s \<noteq> []"
  by (auto simp add: iso_date_def)

lemma js_lt_lexord: "js_lt a b = ((a, b) \<in> lexord {(x, y). x < y})"
  by (induction a b rule: js_lt.induct) auto

lemma unpadded_example:
  "parse_ymd (js ''2025-6-5'') = Some (2025, 6, 5)"
  "parse_ymd (js ''2025-06-14'') = Some (2025, 6, 14)"
  "chron_le (2025, 6, 5) (2025, 6, 14)"
  "\<not> show_report (JString (js ''all'')) [] (js ''2025-06-14'') (r\<lparr>date := js ''2025-6-5''\<rparr>)"
  by (simp_all add: parse_ymd_def js_def all_digits_def is_digit_def dec_def digit_val_def
      chron_le_def show_report_def)

lemma iso_examples:
  "iso_date (js ''2025-06-14'') = Some (2025, 6, 14)"
  "iso_date (js ''2025-06-15'') = Some (2025, 6, 15)"
  by (simp_all add: iso_date_def parse_ymd_def js_def all_digits_def is_digit_def dec_def
      digit_val_def)

lemma show_report_lexord:
  "show_report depthFilter dateFrom dateTo r =
     ((depthFilter = JString (js ''all'') \<or> depth r = depthFilter)
      \<and> \<not> (dateFrom \<noteq> [] \<and> (date r, dateFrom) \<in> lexord {(x, y). x < y})
      \<and> \<not> (dateTo \<noteq> [] \<and> (dateTo, date r) \<in> lexord {(x, y). x < y}))"
  by (auto simp add: show_report_def js_lt_lexord)

lemma unpadded_coincide:
  "iso_date (js ''2025-6-1'') = None"
  "iso_date (js ''2025-6-5'') = None"
  "iso_date (js ''2025-6-9'') = None"
  "parse_ymd (js ''2025-6-1'') = Some (2025, 6, 1)"
  "parse_ymd (js ''2025-6-5'') = Some (2025, 6, 5)"
  "parse_ymd (js ''2025-6-9'') = Some (2025, 6, 9)"
  "show_report (JString (js ''all'')) (js ''2025-6-1'') (js ''2025-6-9'')
     (r\<lparr>date := js ''2025-6-5''\<rparr>)"
  "chron_le (2025, 6, 1) (2025, 6, 5)"
  "chron_le (2025, 6, 5) (2025, 6, 9)"
  "\<not> show_report (JString (js ''all'')) (js ''2025-6-5'') (js ''2025-6-9'')
     (r\<lparr>date := js ''2025-6-1''\<rparr>)"
  "\<not> chron_le (2025, 6, 5) (2025, 6, 1)"
  "\<not> show_report (JString (js ''all'')) (js ''2025-6-1'') (js ''2025-6-5'')
     (r\<lparr>date := js ''2025-6-9''\<rparr>)"
  "\<not> chron_le (2025, 6, 9) (2025, 6, 5)"
  by (simp_all add: iso_date_def parse_ymd_def js_def all_digits_def is_digit_def dec_def
      digit_val_def chron_le_def show_report_def)

text \<open>
  C10, as stated, fails: the date tests do not agree with the calendar exactly when the
  dates are of the zero-padded form. The dates \<open>2025-6-1\<close>, \<open>2025-6-5\<close> and \<open>2025-6-9\<close>
  are not of that form, and on them the tests still are the inclusive calendar range: a
  report inside the bounds is shown, one before the lower or after the upper bound is hidden.
\<close>

theorem unpadded_dates_coincide_counterexample:
  "iso_date (js ''2025-6-1'') = None
   \<and> iso_date (js ''2025-6-5'') = None
   \<and> iso_date (js ''2025-6-9'') = None
   \<and> parse_ymd (js ''2025-6-1'') = Some (2025, 6, 1)
   \<and> parse_ymd (js ''2025-6-5'') = Some (2025, 6, 5)
   \<and> parse_ymd (js ''2025-6-9'') = Some (2025, 6, 9)
   \<and> show_report (JString (js ''all'')) (js ''2025-6-1'') (js ''2025-6-9'')
        (hd (demoReports clock0)\<lparr>date := js ''2025-6-5''\<rparr>)
   \<and> chron_le (2025, 6, 1) (2025, 6, 5) \<and> chron_le (2025, 6, 5) (2025, 6, 9)
   \<and> \<not> show_report (JString (js ''all'')) (js ''2025-6-5'') (js ''2025-6-9'')
        (hd (demoReports clock0)\<lparr>date := js ''2025-6-1''\<rparr>)
   \<and> \<not> chron_le (2025, 6, 5) (2025, 6, 1)
   \<and> \<not> show_report (JString (js ''all'')) (js ''2025-6-1'') (js ''2025-6-5'')
        (hd (demoReports clock0)\<lparr>date := js ''2025-6-9''\<rparr>)
   \<and> \<not> chron_le (2025, 6, 9) (2025, 6, 5)"
  using unpadded_coincide(1-6) unpadded_coincide(7) [of "hd (demoReports clock0)"]
    unpadded_coincide(8,9) unpadded_coincide(10) [of "hd (demoReports clock0)"]
    unpadded_coincide(11) unpadded_coincide(12) [of "hd (demoReports clock0)"]
    unpadded_coincide(13)
  by blast

text \<open>
  C10 (amended). The date tests of \<open>filterReports\<close> are \<open><\<close> and \<open>>\<close> on strings: a
  report is shown if its depth passes and its date is neither lexicographically (by code
  units) below a non-empty lower bound nor above a non-empty upper bound. Whenever the
  report's date and both bounds are of the zero-padded form \<open>YYYY-MM-DD\<close>, a report passes
  the date tests exactly if its date lies between the two bounds, both inclusive, in
  calendar order. On dates not of that form the tests can disagree with the calendar: a
  report dated \<open>2025-6-5\<close> is hidden by the upper bound \<open>2025-06-14\<close>. The tests never
  fail, whatever the strings: the only failure of \<open>filterReports\<close> is the missing active
  chip.
\<close>

theorem date_test_chronological_on_iso:
  assumes "iso_date d = Some D" and "iso_date f = Some F" and "iso_date t = Some T"
  shows "show_report (JString (js ''all'')) f t (r\<lparr>date := d\<rparr>) = (chron_le F D \<and> chron_le D T)
       \<and> show_report depthFilter dateFrom dateTo rep =
           ((depthFilter = JString (js ''all'') \<or> depth rep = depthFilter)
            \<and> \<not> (dateFrom \<noteq> [] \<and> (date rep, dateFrom) \<in> lexord {(x, y). x < y})
            \<and> \<not> (dateTo \<noteq> [] \<and> (dateTo, date rep) \<in> lexord {(x, y). x < y}))
       \<and> (parse_ymd (js ''2025-6-5'') = Some (2025, 6, 5)
          \<and> parse_ymd (js ''2025-06-14'') = Some (2025, 6, 14)
          \<and> chron_le (2025, 6, 5) (2025, 6, 14)
          \<and> \<not> show_report (JString (js ''all'')) [] (js ''2025-06-14'')
                (r\<lparr>date := js ''2025-6-5''\<rparr>))
       \<and> isl (filterReports s) = (find has_class (filter_chips s) = None)"
proof -
  have ne: "f \<noteq> []" "t \<noteq> []"
    using assms(2,3) by (auto dest: iso_date_nonempty)
  have "show_report (JString (js ''all'')) f t (r\<lparr>date := d\<rparr>)
          = (\<not> js_lt d f \<and> \<not> js_lt t d)"
    using ne by (simp add: show_report_def)
  also have "\<dots> = (chron_le F D \<and> chron_le D T)"
    by (simp add: iso_js_lt [OF assms(1,2)] iso_js_lt [OF assms(3,1)] chron_le_iff)
  finally have one: "show_report (JString (js ''all'')) f t (r\<lparr>date := d\<rparr>)
          = (chron_le F D \<and> chron_le D T)" .
  have total: "isl (filterReports s) = (find has_class (filter_chips s) = None)"
    by (simp add: filterReports_eq split: option.splits)
  from one show_report_lexord [of depthFilter dateFrom dateTo rep]
    unpadded_example(1,2,3) unpadded_example(4) [of r] total
  show ?thesis by blast
qed

theorem date_test_chronological_on_iso_witness:
  "iso_date (js ''2025-06-14'') = Some (2025, 6, 14)
   \<and> iso_date (js ''2025-06-15'') = Some (2025, 6, 15)
   \<and> show_report (JString (js ''all'')) (js ''2025-06-14'') (js ''2025-06-15'')
        (hd (demoReports clock0)\<lparr>date := js ''2025-06-14''\<rparr>)
   \<and> chron_le (2025, 6, 14) (2025, 6, 14) \<and> chron_le (2025, 6, 14) (2025, 6, 15)"
proof -
  have c: "chron_le (2025, 6, 14) (2025, 6, 14)" "chron_le (2025, 6, 14) (2025, 6, 15)"
    by (simp_all add: chron_le_def)
  from date_test_chronological_on_iso [OF iso_examples(1) iso_examples(1) iso_examples(2),
      where r = "hd (demoReports clock0)"] iso_examples c
  show ?thesis by blast
qed

end
